theory Spec2Isabelle
  imports Complex_Main "HOL-Library.Multiset"
begin

section \<open>Data model\<close>

text \<open>
  The monitor of \<^verbatim>\<open>serp_monitor.py\<close> works on Python dictionaries. Each dictionary with a
  fixed set of keys is a record here; a key that only some code paths write
  (\<^verbatim>\<open>"exception"\<close>) or that is read with a default (\<^verbatim>\<open>x.get("timestamp", 0)\<close>) is an
  optional field.

  Python floats (clock readings, sizes, rates, thresholds) are rational numbers here.
  Comparisons of floats are exact, and so is the division of a byte count by 1024; the
  subtraction of two clock readings and the rounding of a rate are computed without the
  binary rounding error of the machine.

  Strings are byte strings (the UTF-8 encoding of the Python string).

  The configuration is a loaded \<^verbatim>\<open>Config\<close> in which every key of \<^verbatim>\<open>monitoring\<close> and
  \<^verbatim>\<open>thresholds\<close> is present; the entries of \<^verbatim>\<open>search_engines\<close> are dictionaries that may
  lack a key.
\<close>

record Config =
  search_engines :: "(string \<times> (string \<times> string) list) list"
  search_terms :: "string list"
  concurrency :: int
  timeout_seconds :: rat
  monitor_duration_minutes :: int
  requests_per_engine :: int
  threshold_success_rate :: rat
  threshold_timeout_rate :: rat
  timeout_limit :: rat
  min_content_size_kb :: rat

record ProbeResult =
  engine :: string
  search_term :: string
  status :: int
  elapsed :: rat
  is_timeout :: bool
  success :: bool
  exception :: "string option"
  content_size :: rat
  timestamp :: "rat option"

text \<open>
  What the HTTP client hands back to \<^verbatim>\<open>fetch\<close>: the status, the \<^verbatim>\<open>Content-Type\<close> header
  when there is one, and the bytes of \<^verbatim>\<open>content.encode("utf-8")\<close>, where \<^verbatim>\<open>content\<close> is the
  text that \<^verbatim>\<open>await r.text()\<close> decoded.
\<close>

record Response =
  resp_status :: int
  resp_content_type :: "string option"
  resp_body :: "nat list"

text \<open>
  The outcome of the statement \<^verbatim>\<open>async with session.post(...) as r: content = await r.text()\<close>:
  a response, an exception derived from \<^verbatim>\<open>Exception\<close> (class name and \<^verbatim>\<open>str(e)\<close>), or one
  that is only a \<^verbatim>\<open>BaseException\<close> (a cancellation, a keyboard interrupt), which
  \<^verbatim>\<open>except Exception\<close> does not catch.
\<close>

datatype net_outcome =
    Responded Response
  | RaisedException string string
  | RaisedBaseException string

datatype py_error =
    KeyError string
  | BaseException string

text \<open>The one line that \<^verbatim>\<open>fetch\<close> writes to the engine's log, as its fields.\<close>

datatype log_entry =
  ErrorLine string string string string string rat

record Payload =
  url :: string
  params :: "(string \<times> string) list"

section \<open>Strings\<close>

text \<open>\<^verbatim>\<open>str.lower()\<close> on the ASCII letters; no other character lower-cases to a letter of \<^verbatim>\<open>html\<close>.\<close>

definition lower_char :: "char \<Rightarrow> char" where
  "lower_char c =
     (case map_of (zip ''ABCDEFGHIJKLMNOPQRSTUVWXYZ'' ''abcdefghijklmnopqrstuvwxyz'') c of
        None \<Rightarrow> c
      | Some l \<Rightarrow> l)"

definition lower :: "string \<Rightarrow> string" where
  "lower s = map lower_char s"

text \<open>Python's \<^verbatim>\<open>p in s\<close> on strings: \<open>p\<close> occurs in \<open>s\<close> as a contiguous run.\<close>

fun str_in :: "'a list \<Rightarrow> 'a list \<Rightarrow> bool" where
  "str_in p [] = (p = [])"
| "str_in p (x # xs) = (take (length p) (x # xs) = p \<or> str_in p xs)"

text \<open>
  \<^verbatim>\<open>urllib.parse.quote(term)\<close> with its default \<^verbatim>\<open>safe='/'\<close>: letters, digits and
  \<^verbatim>\<open>_.-~/\<close> stay, every other byte becomes \<^verbatim>\<open>%XX\<close> in upper-case hexadecimal.
\<close>

definition hex_digit :: "nat \<Rightarrow> char" where
  "hex_digit n = ''0123456789ABCDEF'' ! n"

definition quote_safe :: "char \<Rightarrow> bool" where
  "quote_safe c =
     (c \<in> set ''ABCDEFGHIJKLMNOPQRSTUVWXYZabcdefghijklmnopqrstuvwxyz0123456789_.-~/'')"

definition quote_char :: "char \<Rightarrow> string" where
  "quote_char c =
     (if quote_safe c then [c]
      else (let n = (of_char c :: nat)
            in [CHR ''%'', hex_digit (n div 16), hex_digit (n mod 16)]))"

definition quote :: "string \<Rightarrow> string" where
  "quote s = concat (map quote_char s)"

section \<open>Dictionaries\<close>

text \<open>
  A Python dictionary with its insertion order is an association list with distinct keys.
  \<^verbatim>\<open>d[k] = v\<close> overwrites in place or appends.
\<close>

fun dict_set :: "'k \<Rightarrow> 'v \<Rightarrow> ('k \<times> 'v) list \<Rightarrow> ('k \<times> 'v) list" where
  "dict_set k v [] = [(k, v)]"
| "dict_set k v ((k', v') # d) =
     (if k = k' then (k', v) # d else (k', v') # dict_set k v d)"

section \<open>SERPMonitor.build\_payload and SERPMonitor.fetch\<close>

text \<open>
  \<^verbatim>\<open>build_payload\<close> raises \<^verbatim>\<open>KeyError\<close> when the engine is not configured or its entry has no
  \<^verbatim>\<open>"domain"\<close> or no \<^verbatim>\<open>"param"\<close>.
\<close>

definition build_payload :: "Config \<Rightarrow> string \<Rightarrow> string \<Rightarrow> py_error + Payload" where
  "build_payload cfg eng t =
     (case map_of (search_engines cfg) eng of
        None \<Rightarrow> Inl (KeyError eng)
      | Some engine_config \<Rightarrow>
          (case map_of engine_config ''domain'' of
             None \<Rightarrow> Inl (KeyError ''domain'')
           | Some domain \<Rightarrow>
               (case map_of engine_config ''param'' of
                  None \<Rightarrow> Inl (KeyError ''param'')
                | Some param \<Rightarrow>
                    (let api_engine =
                           (case map_of engine_config ''engine'' of
                              None \<Rightarrow> eng | Some e \<Rightarrow> e)
                     in Inr \<lparr> url = ''https://'' @ domain @ ''/search?'' @ param @ ''=''
                                      @ quote t @ ''&json=1'',
                              params = dict_set ''json'' ''1''
                                         (dict_set param t
                                            (dict_set ''engine'' api_engine [])) \<rparr>))))"

text \<open>
  The \<^verbatim>\<open>except Exception\<close> block of \<^verbatim>\<open>fetch\<close>. It calls \<^verbatim>\<open>build_payload\<close> again for the URL of
  the log line, so a \<^verbatim>\<open>KeyError\<close> of \<^verbatim>\<open>build_payload\<close> leaves \<^verbatim>\<open>fetch\<close> from here.
  \<open>t0\<close> is the clock at the start, \<open>t1\<close> the clock when the elapsed time is taken and
  \<open>t2\<close> the clock when the result is stamped.
\<close>

definition fetch_except ::
  "Config \<Rightarrow> rat \<Rightarrow> rat \<Rightarrow> rat \<Rightarrow> string \<Rightarrow> string \<Rightarrow> string \<Rightarrow> string
     \<Rightarrow> py_error + (ProbeResult \<times> log_entry list)" where
  "fetch_except cfg t0 t1 t2 eng t err_type error_text =
     (let el = t1 - t0
      in case build_payload cfg eng t of
           Inl e \<Rightarrow> Inl e
         | Inr payload \<Rightarrow>
             Inr (\<lparr> engine = eng, search_term = t, status = 0, elapsed = el,
                    is_timeout = True, success = False,
                    exception = Some (err_type @ '': '' @ error_text),
                    content_size = 0, timestamp = Some t2 \<rparr>,
                  [ErrorLine eng t (url payload) err_type error_text el]))"

text \<open>\<^verbatim>\<open>type(e).__name__\<close> and \<^verbatim>\<open>str(e)\<close> of an exception raised by the code itself.\<close>

definition error_name :: "py_error \<Rightarrow> string" where
  "error_name e = (case e of KeyError k \<Rightarrow> ''KeyError'' | BaseException n \<Rightarrow> n)"

definition error_message :: "py_error \<Rightarrow> string" where
  "error_message e = (case e of KeyError k \<Rightarrow> [CHR 0x27] @ k @ [CHR 0x27] | BaseException n \<Rightarrow> [])"

definition fetch ::
  "Config \<Rightarrow> rat \<Rightarrow> rat \<Rightarrow> rat \<Rightarrow> string \<Rightarrow> string \<Rightarrow> net_outcome
     \<Rightarrow> py_error + (ProbeResult \<times> log_entry list)" where
  "fetch cfg t0 t1 t2 eng t net =
     (case build_payload cfg eng t of
        Inl e \<Rightarrow> fetch_except cfg t0 t1 t2 eng t (error_name e) (error_message e)
      | Inr payload \<Rightarrow>
          (case net of
             RaisedBaseException n \<Rightarrow> Inl (BaseException n)
           | RaisedException err_type msg \<Rightarrow> fetch_except cfg t0 t1 t2 eng t err_type msg
           | Responded r \<Rightarrow>
               (let el = t1 - t0;
                    size_kb = rat_of_nat (length (resp_body r)) / 1024;
                    is_success =
                      (resp_status r = 200
                       \<and> \<not> str_in ''html''
                             (lower (case resp_content_type r of None \<Rightarrow> [] | Some ct \<Rightarrow> ct))
                       \<and> size_kb \<ge> min_content_size_kb cfg)
                in Inr (\<lparr> engine = eng, search_term = t, status = resp_status r,
                          elapsed = el, is_timeout = (el > timeout_limit cfg),
                          success = is_success, exception = None,
                          content_size = size_kb, timestamp = Some t2 \<rparr>, []))))"

section \<open>The earlier script: build\_payload and fetch of SERP\_Monitor\_log.py\<close>

text \<open>The script keeps its configuration in module constants.\<close>

definition SEARCH_ENGINES :: "(string \<times> (string \<times> string) list) list" where
  "SEARCH_ENGINES =
     [(''google'', [(''domain'', ''www.google.com''), (''param'', ''q'')]),
      (''bing'', [(''domain'', ''www.bing.com''), (''param'', ''q'')]),
      (''yandex'', [(''domain'', ''yandex.com''), (''param'', ''text'')]),
      (''duckduckgo'', [(''domain'', ''duckduckgo.com''), (''param'', ''q'')])]"

definition TIMEOUT_LIMIT :: rat where
  "TIMEOUT_LIMIT = 10"

definition MIN_CONTENT_SIZE_KB :: rat where
  "MIN_CONTENT_SIZE_KB = 2"

definition build_payload_log :: "string \<Rightarrow> string \<Rightarrow> py_error + string" where
  "build_payload_log eng t =
     (case map_of SEARCH_ENGINES eng of
        None \<Rightarrow> Inl (KeyError eng)
      | Some config \<Rightarrow>
          (case map_of config ''domain'' of
             None \<Rightarrow> Inl (KeyError ''domain'')
           | Some domain \<Rightarrow>
               (case map_of config ''param'' of
                  None \<Rightarrow> Inl (KeyError ''param'')
                | Some param \<Rightarrow>
                    Inr (''https://'' @ domain @ ''/search?'' @ param @ ''=''
                           @ quote t @ ''&json=1''))))"

definition fetch_log_except ::
  "rat \<Rightarrow> rat \<Rightarrow> rat \<Rightarrow> string \<Rightarrow> string \<Rightarrow> string \<Rightarrow> string
     \<Rightarrow> py_error + (ProbeResult \<times> log_entry list)" where
  "fetch_log_except t0 t1 t2 eng t err_type error_text =
     (let el = t1 - t0
      in case build_payload_log eng t of
           Inl e \<Rightarrow> Inl e
         | Inr request_url \<Rightarrow>
             Inr (\<lparr> engine = eng, search_term = t, status = 0, elapsed = el,
                    is_timeout = True, success = False,
                    exception = Some (err_type @ '': '' @ error_text),
                    content_size = 0, timestamp = Some t2 \<rparr>,
                  [ErrorLine eng t request_url err_type error_text el]))"

text \<open>The script tests \<^verbatim>\<open>"html" not in r.headers.get("Content-Type", "")\<close>, with no \<^verbatim>\<open>.lower()\<close>.\<close>

definition fetch_log ::
  "rat \<Rightarrow> rat \<Rightarrow> rat \<Rightarrow> string \<Rightarrow> string \<Rightarrow> net_outcome
     \<Rightarrow> py_error + (ProbeResult \<times> log_entry list)" where
  "fetch_log t0 t1 t2 eng t net =
     (case build_payload_log eng t of
        Inl e \<Rightarrow> fetch_log_except t0 t1 t2 eng t (error_name e) (error_message e)
      | Inr payload \<Rightarrow>
          (case net of
             RaisedBaseException n \<Rightarrow> Inl (BaseException n)
           | RaisedException err_type msg \<Rightarrow> fetch_log_except t0 t1 t2 eng t err_type msg
           | Responded r \<Rightarrow>
               (let el = t1 - t0
                in Inr (\<lparr> engine = eng, search_term = t, status = resp_status r,
                          elapsed = el, is_timeout = (el > TIMEOUT_LIMIT),
                          success =
                            (resp_status r = 200
                             \<and> \<not> str_in ''html''
                                   (case resp_content_type r of None \<Rightarrow> [] | Some ct \<Rightarrow> ct)
                             \<and> rat_of_nat (length (resp_body r)) / 1024 \<ge> MIN_CONTENT_SIZE_KB),
                          exception = None,
                          content_size = rat_of_nat (length (resp_body r)) / 1024,
                          timestamp = Some t2 \<rparr>, []))))"

section \<open>SERPMonitor.analyze\_results\<close>

record CycleStats =
  st_total :: nat
  st_success :: nat
  st_timeout :: nat
  st_exceptions :: nat
  st_errors :: nat
  st_success_rate :: rat
  st_timeout_rate :: rat
  st_exception_rate :: rat
  st_error_rate :: rat
  st_results :: "ProbeResult list"

text \<open>\<^verbatim>\<open>grouped[r["engine"]].append(r)\<close> on a \<^verbatim>\<open>defaultdict(list)\<close>.\<close>

fun grouped_append ::
  "ProbeResult \<Rightarrow> (string \<times> ProbeResult list) list \<Rightarrow> (string \<times> ProbeResult list) list" where
  "grouped_append r [] = [(engine r, [r])]"
| "grouped_append r ((k, g) # d) =
     (if k = engine r then (k, g @ [r]) # d else (k, g) # grouped_append r d)"

definition grouped :: "ProbeResult list \<Rightarrow> (string \<times> ProbeResult list) list" where
  "grouped results = foldl (\<lambda>d r. grouped_append r d) [] results"

text \<open>\<^verbatim>\<open>status in (500, 502, 504)\<close>.\<close>

definition is_5xx :: "int \<Rightarrow> bool" where
  "is_5xx c = (c = 500 \<or> c = 502 \<or> c = 504)"

text \<open>\<^verbatim>\<open>round(x, 2)\<close>: to the nearest multiple of 0.01, a tie to the even one.\<close>

definition round_half_even :: "rat \<Rightarrow> int" where
  "round_half_even x =
     (let f = \<lfloor>x\<rfloor>; d = x - of_int f
      in if d < 1 / 2 then f else if d > 1 / 2 then f + 1
         else if even f then f else f + 1)"

definition round2 :: "rat \<Rightarrow> rat" where
  "round2 x = of_int (round_half_even (x * 100)) / 100"

definition engine_stats :: "ProbeResult list \<Rightarrow> CycleStats" where
  "engine_stats grp =
     (let total = length grp;
          n_success = length (filter success grp);
          n_timeout = length (filter is_timeout grp);
          exceptions = length (filter (\<lambda>r. is_5xx (status r)) grp);
          errors = length (filter (\<lambda>r. status r = 0) grp)
      in \<lparr> st_total = total, st_success = n_success, st_timeout = n_timeout,
           st_exceptions = exceptions, st_errors = errors,
           st_success_rate = round2 (rat_of_nat n_success / rat_of_nat total * 100),
           st_timeout_rate = round2 (rat_of_nat n_timeout / rat_of_nat total * 100),
           st_exception_rate = round2 (rat_of_nat exceptions / rat_of_nat total * 100),
           st_error_rate = round2 (rat_of_nat errors / rat_of_nat total * 100),
           st_results = grp \<rparr>)"

definition analyze_results :: "ProbeResult list \<Rightarrow> (string \<times> CycleStats) list" where
  "analyze_results results =
     foldl (\<lambda>analysis (eng, grp).
              if length grp = 0 then analysis
              else dict_set eng (engine_stats grp) analysis)
           [] (grouped results)"

section \<open>The rolling window and SERPMonitor.check\_alerts\<close>

text \<open>\<^verbatim>\<open>deque(maxlen=n).append(x)\<close>: append, then drop the oldest entry if the deque is too long.\<close>

definition deque_append :: "nat \<Rightarrow> 'a \<Rightarrow> 'a list \<Rightarrow> 'a list" where
  "deque_append maxlen x d =
     (let d' = d @ [x] in if length d' > maxlen then tl d' else d')"

text \<open>One entry of \<^verbatim>\<open>status_window\<close>: four deques of \<^verbatim>\<open>maxlen=3\<close> (the log handle is left out).\<close>

record EngineWindow =
  success_rate :: "rat list"
  timeout_rate :: "rat list"
  exception_rate :: "rat list"
  error_rate :: "rat list"

definition new_window :: EngineWindow where
  "new_window = \<lparr> success_rate = [], timeout_rate = [], exception_rate = [], error_rate = [] \<rparr>"

text \<open>
  A call of \<^verbatim>\<open>send_alert\<close>, by the rule that makes it: the engine, the threshold in the text
  and the \<^verbatim>\<open>data_list\<close> (the burst alert has neither). \<^verbatim>\<open>send_alert\<close> posts the message to
  the webhook when one is configured and only logs otherwise; it catches its own errors.
  \<^verbatim>\<open>check_alerts\<close> returns the calls it makes, in order.
\<close>

datatype alert =
    SuccessRateAlert string rat "rat list"
  | TimeoutRateAlert string rat "rat list"
  | BurstAlert string

definition timestamp_key :: "ProbeResult \<Rightarrow> rat" where
  "timestamp_key x = (case timestamp x of None \<Rightarrow> 0 | Some ts \<Rightarrow> ts)"

definition found_3_in_row :: "int list \<Rightarrow> bool" where
  "found_3_in_row codes =
     list_ex (\<lambda>i. is_5xx (codes ! i) \<and> is_5xx (codes ! (i + 1)) \<and> is_5xx (codes ! (i + 2)))
       [0 ..< nat (int (length codes) - 2)]"

definition check_alerts ::
  "Config \<Rightarrow> string \<Rightarrow> CycleStats \<Rightarrow> (string \<rightharpoonup> EngineWindow) \<Rightarrow> py_error + alert list" where
  "check_alerts cfg eng stats status_window =
     (case status_window eng of
        None \<Rightarrow> Inl (KeyError eng)
      | Some s \<Rightarrow>
          (let results = sort_key timestamp_key (st_results stats);
               codes = map status results
           in Inr
                ((if length (success_rate s) = 3
                     \<and> list_all (\<lambda>x. x < threshold_success_rate cfg) (success_rate s)
                  then [SuccessRateAlert eng (threshold_success_rate cfg) (success_rate s)]
                  else [])
                 @ (if length (timeout_rate s) = 3
                       \<and> list_all (\<lambda>x. x > threshold_timeout_rate cfg) (timeout_rate s)
                    then [TimeoutRateAlert eng (threshold_timeout_rate cfg) (timeout_rate s)]
                    else [])
                 @ (if found_3_in_row codes then [BurstAlert eng] else []))))"

section \<open>One cycle of SERPMonitor.monitor\<close>

text \<open>The four \<^verbatim>\<open>append\<close> calls on the engine's deques.\<close>

definition push_rates :: "CycleStats \<Rightarrow> EngineWindow \<Rightarrow> EngineWindow" where
  "push_rates stats s =
     \<lparr> success_rate = deque_append 3 (st_success_rate stats) (success_rate s),
       timeout_rate = deque_append 3 (st_timeout_rate stats) (timeout_rate s),
       exception_rate = deque_append 3 (st_exception_rate stats) (exception_rate s),
       error_rate = deque_append 3 (st_error_rate stats) (error_rate s) \<rparr>"

definition init_status_window :: "Config \<Rightarrow> (string \<rightharpoonup> EngineWindow)" where
  "init_status_window cfg = map_of (map (\<lambda>(eng, c). (eng, new_window)) (search_engines cfg))"

text \<open>The loop over \<^verbatim>\<open>analysis.items()\<close>: update the engine's window, then check its alerts.\<close>

fun update_and_check ::
  "Config \<Rightarrow> (string \<times> CycleStats) list \<Rightarrow> (string \<rightharpoonup> EngineWindow)
     \<Rightarrow> py_error + ((string \<rightharpoonup> EngineWindow) \<times> alert list)" where
  "update_and_check cfg [] status_window = Inr (status_window, [])"
| "update_and_check cfg ((eng, stats) # rest) status_window =
     (case status_window eng of
        None \<Rightarrow> Inl (KeyError eng)
      | Some s \<Rightarrow>
          (let status_window' = status_window(eng \<mapsto> push_rates stats s)
           in case check_alerts cfg eng stats status_window' of
                Inl e \<Rightarrow> Inl e
              | Inr alerts \<Rightarrow>
                  (case update_and_check cfg rest status_window' of
                     Inl e \<Rightarrow> Inl e
                   | Inr (status_window'', alerts') \<Rightarrow>
                       Inr (status_window'', alerts @ alerts'))))"

definition run_cycle ::
  "Config \<Rightarrow> ProbeResult list \<Rightarrow> (string \<rightharpoonup> EngineWindow)
     \<Rightarrow> py_error + ((string \<rightharpoonup> EngineWindow) \<times> alert list)" where
  "run_cycle cfg results status_window =
     update_and_check cfg (analyze_results results) status_window"

section \<open>What the theorems compare\<close>

text \<open>The counts and the four rates of a \<open>CycleStats\<close>, without the retained results.\<close>

definition stats_summary ::
  "CycleStats \<Rightarrow> (nat \<times> nat \<times> nat \<times> nat \<times> nat) \<times> (rat \<times> rat \<times> rat \<times> rat)" where
  "stats_summary st =
     ((st_total st, st_success st, st_timeout st, st_exceptions st, st_errors st),
      (st_success_rate st, st_timeout_rate st, st_exception_rate st, st_error_rate st))"

definition window_bounded :: "EngineWindow \<Rightarrow> bool" where
  "window_bounded w =
     (length (success_rate w) \<le> 3 \<and> length (timeout_rate w) \<le> 3
      \<and> length (exception_rate w) \<le> 3 \<and> length (error_rate w) \<le> 3)"

section \<open>Example data\<close>

definition example_config :: Config where
  "example_config =
     \<lparr> search_engines =
         [(''google'', [(''domain'', ''www.google.com''), (''param'', ''q'')])],
       search_terms = [''Apple''], concurrency = 2, timeout_seconds = 20,
       monitor_duration_minutes = 3, requests_per_engine = 5,
       threshold_success_rate = 95, threshold_timeout_rate = 10,
       timeout_limit = 10, min_content_size_kb = 2 \<rparr>"

definition example_payload :: Payload where
  "example_payload =
     \<lparr> url = ''https://www.google.com/search?q=Apple&json=1'',
       params = [(''engine'', ''google''), (''q'', ''Apple''), (''json'', ''1'')] \<rparr>"

definition json_response :: Response where
  "json_response =
     \<lparr> resp_status = 200, resp_content_type = Some ''application/json'',
       resp_body = replicate 2048 0 \<rparr>"

definition upper_case_html_response :: Response where
  "upper_case_html_response =
     \<lparr> resp_status = 200, resp_content_type = Some ''text/HTML'',
       resp_body = replicate 2048 0 \<rparr>"

definition example_result :: "string \<Rightarrow> int \<Rightarrow> bool \<Rightarrow> rat \<Rightarrow> ProbeResult" where
  "example_result eng code ok ts =
     \<lparr> engine = eng, search_term = ''Apple'', status = code, elapsed = 1,
       is_timeout = False, success = ok, exception = None, content_size = 2,
       timestamp = Some ts \<rparr>"

text \<open>Five results of one cycle, in completion order 200, 502, 502, 502, 200.\<close>

definition scenario_C :: "ProbeResult list" where
  "scenario_C =
     [example_result ''google'' 502 False 3, example_result ''google'' 200 True 1,
      example_result ''google'' 502 False 4, example_result ''google'' 200 True 5,
      example_result ''google'' 502 False 2]"

text \<open>Five results of one cycle, in completion order 502, 200, 502, 200, 502.\<close>

definition scenario_D :: "ProbeResult list" where
  "scenario_D =
     [example_result ''google'' 502 False 1, example_result ''google'' 200 True 2,
      example_result ''google'' 502 False 3, example_result ''google'' 200 True 4,
      example_result ''google'' 502 False 5]"

definition two_errors :: "ProbeResult list" where
  "two_errors = [example_result ''google'' 502 False 1, example_result ''google'' 504 False 2]"

definition example_window :: "rat list \<Rightarrow> EngineWindow" where
  "example_window rates =
     \<lparr> success_rate = rates, timeout_rate = [0, 0, 0], exception_rate = [0, 0, 0],
       error_rate = [0, 0, 0] \<rparr>"

definition rates_stats :: "rat \<Rightarrow> CycleStats" where
  "rates_stats x =
     \<lparr> st_total = 5, st_success = 0, st_timeout = 0, st_exceptions = 0, st_errors = 0,
       st_success_rate = x, st_timeout_rate = x + 1, st_exception_rate = x + 2,
       st_error_rate = x + 3, st_results = [] \<rparr>"

section \<open>Strings and dictionaries\<close>

lemma str_in_iff: "str_in p s \<longleftrightarrow> (\<exists>xs ys. s = xs @ p @ ys)"
proof (induction s)
  case Nil
  then show ?case by auto
next
  case (Cons a s)
  show ?case
  proof
    assume "str_in p (a # s)"
    then consider "take (length p) (a # s) = p" | "str_in p s" by auto
    then show "\<exists>xs ys. a # s = xs @ p @ ys"
    proof cases
      case 1
      then have "a # s = [] @ p @ drop (length p) (a # s)"
        by (metis append_Nil append_take_drop_id)
      then show ?thesis by blast
    next
      case 2
      then obtain xs ys where "s = xs @ p @ ys" using Cons.IH by blast
      then have "a # s = (a # xs) @ p @ ys" by simp
      then show ?thesis by blast
    qed
  next
    assume "\<exists>xs ys. a # s = xs @ p @ ys"
    then obtain xs ys where eq: "a # s = xs @ p @ ys" by blast
    show "str_in p (a # s)"
    proof (cases xs)
      case Nil
      with eq have "take (length p) (a # s) = p" by simp
      then show ?thesis by simp
    next
      case (Cons b xs')
      with eq have "s = xs' @ p @ ys" by simp
      then have "str_in p s" using Cons.IH by blast
      then show ?thesis by simp
    qed
  qed
qed

lemma dict_set_map_of: "map_of (dict_set k v d) = (map_of d)(k \<mapsto> v)"
  by (induction d) auto

lemma dict_set_keys:
  "map fst (dict_set k v d) = (if k \<in> fst ` set d then map fst d else map fst d @ [k])"
  by (induction d) force+

lemma example_build_payload:
  "build_payload example_config ''google'' ''Apple'' = Inr example_payload"
  by (simp add: build_payload_def example_config_def example_payload_def
        quote_def quote_char_def quote_safe_def)

lemma quote_example: "quote ''Cottage Cheese'' = ''Cottage%20Cheese''"
  by (simp add: quote_def quote_char_def quote_safe_def hex_digit_def)

section \<open>fetch\<close>

text \<open>
  \<^verbatim>\<open>fetch\<close> leaves by an exception in two cases only: \<^verbatim>\<open>build_payload\<close> raises (the handler
  calls it again), or the call is interrupted by something that is not an \<^verbatim>\<open>Exception\<close>.
\<close>

lemma fetch_raises_iff:
  "(\<exists>e. fetch cfg t0 t1 t2 eng t net = Inl e) \<longleftrightarrow>
     ((\<exists>e. build_payload cfg eng t = Inl e) \<or> (\<exists>n. net = RaisedBaseException n))"
  by (auto simp: fetch_def fetch_except_def Let_def split: sum.splits net_outcome.splits)

text \<open>
  In \<^verbatim>\<open>SERPMonitor.fetch\<close> a response is a success exactly when its status is 200, its
  \<^verbatim>\<open>Content-Type\<close>, in lower case, has no run \<^verbatim>\<open>html\<close>, and its size reaches the floor.
\<close>

lemma fetch_success_iff:
  assumes "build_payload cfg eng t = Inr payload"
  shows "\<exists>res. fetch cfg t0 t1 t2 eng t (Responded r) = Inr (res, [])
           \<and> (success res \<longleftrightarrow>
                resp_status r = 200
                \<and> \<not> (\<exists>xs ys. lower (case resp_content_type r of None \<Rightarrow> [] | Some ct \<Rightarrow> ct)
                                   = xs @ ''html'' @ ys)
                \<and> rat_of_nat (length (resp_body r)) / 1024 \<ge> min_content_size_kb cfg)
           \<and> content_size res = rat_of_nat (length (resp_body r)) / 1024
           \<and> status res = resp_status r"
  unfolding str_in_iff [symmetric]
  using assms by (simp add: fetch_def Let_def)

text \<open>The earlier script has the same rule, but looks for \<^verbatim>\<open>html\<close> in the header as it is.\<close>

lemma fetch_log_success_iff:
  assumes "build_payload_log eng t = Inr request_url"
  shows "\<exists>res. fetch_log t0 t1 t2 eng t (Responded r) = Inr (res, [])
           \<and> (success res \<longleftrightarrow>
                resp_status r = 200
                \<and> \<not> (\<exists>xs ys. (case resp_content_type r of None \<Rightarrow> [] | Some ct \<Rightarrow> ct)
                                   = xs @ ''html'' @ ys)
                \<and> rat_of_nat (length (resp_body r)) / 1024 \<ge> MIN_CONTENT_SIZE_KB)"
  unfolding str_in_iff [symmetric]
  using assms by (simp add: fetch_log_def Let_def)

text \<open>
  Claim C1: a result made from a normal response has \<open>success\<close> true if and only if the
  status is 200, the \<^verbatim>\<open>Content-Type\<close> header has no HTML marker and the body size in
  kilobytes reaches the floor. \<^verbatim>\<open>SERPMonitor.fetch\<close> does this (\<open>fetch_success_iff\<close>). The
  \<^verbatim>\<open>fetch\<close> of the earlier script does not lower-case the header: on a response of status
  200 with 2 KB of body and the header \<^verbatim>\<open>text/HTML\<close> it reports a success, where
  \<^verbatim>\<open>SERPMonitor.fetch\<close> reports none.
\<close>

theorem fetch_log_upper_case_html:
  "fetch_log 0 1 2 ''google'' ''Apple'' (Responded upper_case_html_response) =
     Inr (\<lparr> engine = ''google'', search_term = ''Apple'', status = 200, elapsed = 1,
            is_timeout = False, success = True, exception = None, content_size = 2,
            timestamp = Some 2 \<rparr>, [])
   \<and> fetch example_config 0 1 2 ''google'' ''Apple'' (Responded upper_case_html_response) =
     Inr (\<lparr> engine = ''google'', search_term = ''Apple'', status = 200, elapsed = 1,
            is_timeout = False, success = False, exception = None, content_size = 2,
            timestamp = Some 2 \<rparr>, [])"
proof
  show "fetch_log 0 1 2 ''google'' ''Apple'' (Responded upper_case_html_response) =
     Inr (\<lparr> engine = ''google'', search_term = ''Apple'', status = 200, elapsed = 1,
            is_timeout = False, success = True, exception = None, content_size = 2,
            timestamp = Some 2 \<rparr>, [])"
    by (simp add: fetch_log_def build_payload_log_def SEARCH_ENGINES_def
          MIN_CONTENT_SIZE_KB_def TIMEOUT_LIMIT_def upper_case_html_response_def)
  show "fetch example_config 0 1 2 ''google'' ''Apple'' (Responded upper_case_html_response) =
     Inr (\<lparr> engine = ''google'', search_term = ''Apple'', status = 200, elapsed = 1,
            is_timeout = False, success = False, exception = None, content_size = 2,
            timestamp = Some 2 \<rparr>, [])"
    unfolding fetch_def example_build_payload
    by (simp add: example_config_def upper_case_html_response_def lower_def lower_char_def)
qed

text \<open>
  Claim C4: when the network call raises an exception, \<^verbatim>\<open>fetch\<close> returns a result with
  status 0, \<open>success\<close> false, \<open>is_timeout\<close> true, the time elapsed until the failure, content
  size 0 and the diagnostic ``class name: message''; it also writes one error line to the
  engine's log. The call is reached only after \<^verbatim>\<open>build_payload\<close> has returned.
\<close>

theorem fetch_exception_result:
  assumes "build_payload cfg eng t = Inr payload"
  shows "fetch cfg t0 t1 t2 eng t (RaisedException err_type msg) =
           Inr (\<lparr> engine = eng, search_term = t, status = 0, elapsed = t1 - t0,
                  is_timeout = True, success = False,
                  exception = Some (err_type @ '': '' @ msg),
                  content_size = 0, timestamp = Some t2 \<rparr>,
                [ErrorLine eng t (url payload) err_type msg (t1 - t0)])"
  using assms by (simp add: fetch_def fetch_except_def Let_def)

theorem fetch_exception_result_witness:
  "build_payload example_config ''google'' ''Apple'' = Inr example_payload
   \<and> fetch example_config 100 103 104 ''google'' ''Apple''
         (RaisedException ''ClientConnectorError'' ''refused'') =
       Inr (\<lparr> engine = ''google'', search_term = ''Apple'', status = 0, elapsed = 3,
              is_timeout = True, success = False,
              exception = Some ''ClientConnectorError: refused'',
              content_size = 0, timestamp = Some 104 \<rparr>,
            [ErrorLine ''google'' ''Apple'' ''https://www.google.com/search?q=Apple&json=1''
               ''ClientConnectorError'' ''refused'' 3])"
  using fetch_exception_result [OF example_build_payload, of 100 103 104
          "''ClientConnectorError''" "''refused''"]
  by (simp add: example_build_payload example_payload_def)

text \<open>
  Claim C6: for a completed response, \<open>is_timeout\<close> is true if and only if the elapsed time
  is strictly greater than the configured limit, whatever \<open>success\<close> is. The elapsed time is
  the clock after the body is read minus the clock at the start.
\<close>

theorem fetch_is_timeout_iff:
  assumes "build_payload cfg eng t = Inr payload"
  shows "\<exists>res. fetch cfg t0 t1 t2 eng t (Responded r) = Inr (res, [])
           \<and> elapsed res = t1 - t0
           \<and> (is_timeout res \<longleftrightarrow> elapsed res > timeout_limit cfg)"
  using assms by (simp add: fetch_def Let_def)

theorem fetch_is_timeout_iff_witness:
  "build_payload example_config ''google'' ''Apple'' = Inr example_payload
   \<and> (\<exists>res. fetch example_config 100 112 113 ''google'' ''Apple'' (Responded json_response)
                = Inr (res, [])
            \<and> elapsed res = 12 \<and> is_timeout res \<and> success res)"
proof -
  from fetch_is_timeout_iff [OF example_build_payload, of 100 112 113 json_response]
  obtain res where
    r: "fetch example_config 100 112 113 ''google'' ''Apple'' (Responded json_response)
          = Inr (res, [])"
    and e: "elapsed res = 112 - 100"
    and t: "is_timeout res \<longleftrightarrow> elapsed res > timeout_limit example_config"
    by blast
  from e t have "is_timeout res" by (simp add: example_config_def)
  moreover from r have "success res"
    unfolding fetch_def example_build_payload
    by (auto simp: example_config_def json_response_def lower_def lower_char_def)
  ultimately show ?thesis
    using r e example_build_payload by auto
qed

section \<open>analyze\_results\<close>

lemma grouped_append_keys:
  "map fst (grouped_append r d) =
     (if engine r \<in> fst ` set d then map fst d else map fst d @ [engine r])"
  by (induction d) force+

lemma grouped_append_distinct:
  "distinct (map fst d) \<Longrightarrow> distinct (map fst (grouped_append r d))"
  by (simp add: grouped_append_keys)

lemma grouped_append_map_of:
  "map_of (grouped_append r d) e =
     (if e = engine r
      then Some ((case map_of d e of None \<Rightarrow> [] | Some g \<Rightarrow> g) @ [r])
      else map_of d e)"
  by (induction d) auto

text \<open>
  After the grouping loop the dictionary has one entry per engine seen, holding that
  engine's results in their order in the batch.
\<close>

lemma grouped_foldl:
  "distinct (map fst d) \<Longrightarrow>
     distinct (map fst (foldl (\<lambda>d r. grouped_append r d) d rs))
     \<and> map_of (foldl (\<lambda>d r. grouped_append r d) d rs) e =
         (case map_of d e of
            None \<Rightarrow> (if filter (\<lambda>r. engine r = e) rs = [] then None
                      else Some (filter (\<lambda>r. engine r = e) rs))
          | Some g \<Rightarrow> Some (g @ filter (\<lambda>r. engine r = e) rs))"
proof (induction rs arbitrary: d)
  case Nil
  then show ?case by (simp split: option.splits)
next
  case (Cons r rs)
  have d: "distinct (map fst (grouped_append r d))"
    using Cons.prems by (rule grouped_append_distinct)
  show ?case
    using Cons.IH [OF d]
    by (auto simp: grouped_append_map_of split: option.splits)
qed

lemma grouped_distinct: "distinct (map fst (grouped rs))"
  using grouped_foldl [of "[]" rs] by (simp add: grouped_def)

lemma grouped_map_of:
  "map_of (grouped rs) e =
     (if filter (\<lambda>r. engine r = e) rs = [] then None
      else Some (filter (\<lambda>r. engine r = e) rs))"
  using grouped_foldl [of "[]" rs e] by (simp add: grouped_def)

lemma analyze_foldl:
  "distinct (map fst d) \<Longrightarrow>
     map_of (foldl (\<lambda>analysis (eng, grp).
                      if length grp = 0 then analysis
                      else dict_set eng (engine_stats grp) analysis) acc d) e =
       (case map_of d e of
          None \<Rightarrow> map_of acc e
        | Some g \<Rightarrow> if g = [] then map_of acc e else Some (engine_stats g))"
proof (induction d arbitrary: acc)
  case Nil
  then show ?case by simp
next
  case (Cons p d)
  obtain k g where p: "p = (k, g)" by (cases p)
  from Cons.prems p have dd: "distinct (map fst d)" and k: "map_of d k = None"
    by (auto simp: map_of_eq_None_iff)
  show ?case
    using Cons.IH [OF dd] k
    by (auto simp: p dict_set_map_of split: option.splits)
qed

lemma analyze_foldl_distinct:
  "distinct (map fst acc) \<Longrightarrow>
     distinct (map fst (foldl (\<lambda>analysis (eng, grp).
                      if length grp = 0 then analysis
                      else dict_set eng (engine_stats grp) analysis) acc d))"
  by (induction d arbitrary: acc) (auto simp: dict_set_keys)

lemma analyze_results_distinct: "distinct (map fst (analyze_results rs))"
  unfolding analyze_results_def by (rule analyze_foldl_distinct) simp

text \<open>The entry of an engine is computed from exactly that engine's results of the batch.\<close>

lemma analyze_results_map_of:
  "map_of (analyze_results rs) e =
     (if filter (\<lambda>r. engine r = e) rs = [] then None
      else Some (engine_stats (filter (\<lambda>r. engine r = e) rs)))"
  unfolding analyze_results_def analyze_foldl [OF grouped_distinct]
  by (simp add: grouped_map_of)

lemma filter_length_mset:
  assumes "mset xs = mset ys"
  shows "length (filter P xs) = length (filter P ys)"
proof -
  from assms have "mset (filter P xs) = mset (filter P ys)" by simp
  then show ?thesis by (rule mset_eq_length)
qed

lemma engine_stats_mset:
  assumes "mset xs = mset ys"
  shows "stats_summary (engine_stats xs) = stats_summary (engine_stats ys)"
  using filter_length_mset [OF assms] mset_eq_length [OF assms]
  by (simp add: stats_summary_def engine_stats_def Let_def)

text \<open>3.125 is a tie and goes down to 3.12; 9.375 is a tie and goes up to 9.38.\<close>

lemma engine_stats_results: "st_results (engine_stats rs) = rs"
  by (simp add: engine_stats_def Let_def)

lemma round2_examples:
  "round2 0 = 0" "round2 40 = 40" "round2 60 = 60"
  "round2 (25 / 8) = 78 / 25" "round2 (75 / 8) = 469 / 50" "round2 (100 / 3) = 3333 / 100"
  by code_simp+

lemma analyze_results_example:
  "analyze_results scenario_D =
     [(''google'',
       \<lparr> st_total = 5, st_success = 2, st_timeout = 0, st_exceptions = 3, st_errors = 0,
         st_success_rate = 40, st_timeout_rate = 0, st_exception_rate = 60,
         st_error_rate = 0, st_results = scenario_D \<rparr>)]"
  by (simp add: analyze_results_def grouped_def scenario_D_def example_result_def
        engine_stats_def is_5xx_def round2_examples Let_def)

text \<open>
  Claim C7: an engine is a key of the analysis if and only if at least one result of the
  batch belongs to it; an engine without results is absent, and every entry counts at
  least one result.
\<close>

theorem analyze_results_keys:
  "(e \<in> fst ` set (analyze_results rs) \<longleftrightarrow> (\<exists>r \<in> set rs. engine r = e))
   \<and> (\<forall>st. (e, st) \<in> set (analyze_results rs) \<longrightarrow> 0 < st_total st)"
proof
  have "e \<in> fst ` set (analyze_results rs) \<longleftrightarrow> map_of (analyze_results rs) e \<noteq> None"
    by (simp add: map_of_eq_None_iff)
  also have "\<dots> \<longleftrightarrow> filter (\<lambda>r. engine r = e) rs \<noteq> []"
    by (simp add: analyze_results_map_of)
  also have "\<dots> \<longleftrightarrow> (\<exists>r \<in> set rs. engine r = e)"
    by (auto simp: filter_empty_conv)
  finally show "e \<in> fst ` set (analyze_results rs) \<longleftrightarrow> (\<exists>r \<in> set rs. engine r = e)" .
next
  show "\<forall>st. (e, st) \<in> set (analyze_results rs) \<longrightarrow> 0 < st_total st"
  proof (intro allI impI)
    fix st
    assume "(e, st) \<in> set (analyze_results rs)"
    then have "map_of (analyze_results rs) e = Some st"
      using analyze_results_distinct by simp
    then show "0 < st_total st"
      by (auto simp: analyze_results_map_of engine_stats_def Let_def split: if_splits)
  qed
qed

theorem analyze_results_keys_witness:
  "''bing'' \<notin> fst ` set (analyze_results scenario_C)
   \<and> (\<exists>st. (''google'', st) \<in> set (analyze_results scenario_C) \<and> 0 < st_total st)"
proof -
  have g: "\<exists>r \<in> set scenario_C. engine r = ''google''"
    and b: "\<not> (\<exists>r \<in> set scenario_C. engine r = ''bing'')"
    by (simp_all add: scenario_C_def example_result_def)
  from g analyze_results_keys [of "''google''" scenario_C]
  obtain st where "(''google'', st) \<in> set (analyze_results scenario_C)" and "0 < st_total st"
    by force
  moreover from b analyze_results_keys [of "''bing''" scenario_C]
  have "''bing'' \<notin> fst ` set (analyze_results scenario_C)"
    by simp
  ultimately show ?thesis by blast
qed

text \<open>
  Claim C10: reordering the batch changes neither the totals, nor the success, timeout,
  exception and error counts, nor the four rounded rates of any engine.
\<close>

theorem analyze_results_permutation:
  assumes "mset rs = mset rs'"
  shows "map_option stats_summary (map_of (analyze_results rs) e) =
         map_option stats_summary (map_of (analyze_results rs') e)"
proof -
  have m: "mset (filter (\<lambda>r. engine r = e) rs) = mset (filter (\<lambda>r. engine r = e) rs')"
    using assms by simp
  then have "filter (\<lambda>r. engine r = e) rs = [] \<longleftrightarrow> filter (\<lambda>r. engine r = e) rs' = []"
    by (metis mset_zero_iff)
  then show ?thesis
    using engine_stats_mset [OF m] by (simp add: analyze_results_map_of)
qed

theorem analyze_results_permutation_witness:
  "mset scenario_D = mset (rev scenario_D)
   \<and> map_option stats_summary (map_of (analyze_results scenario_D) ''google'') =
       Some ((5, 2, 0, 3, 0), (40, 0, 60, 0))
   \<and> map_option stats_summary (map_of (analyze_results (rev scenario_D)) ''google'') =
       Some ((5, 2, 0, 3, 0), (40, 0, 60, 0))"
proof -
  have m: "mset scenario_D = mset (rev scenario_D)" by simp
  have v: "map_option stats_summary (map_of (analyze_results scenario_D) ''google'') =
             Some ((5, 2, 0, 3, 0), (40, 0, 60, 0))"
    by (simp add: analyze_results_example stats_summary_def)
  show ?thesis
    using m v analyze_results_permutation [OF m, of "''google''"] by simp
qed

section \<open>check\_alerts\<close>

lemma found_3_in_row_iff:
  "found_3_in_row codes \<longleftrightarrow>
     (\<exists>i. i + 2 < length codes
          \<and> is_5xx (codes ! i) \<and> is_5xx (codes ! (i + 1)) \<and> is_5xx (codes ! (i + 2)))"
proof -
  have "\<And>i. i < nat (int (length codes) - 2) \<longleftrightarrow> i + 2 < length codes"
    by linarith
  then show ?thesis
    by (auto simp: found_3_in_row_def list_ex_iff)
qed

lemma found_3_in_row_short: "length codes < 3 \<Longrightarrow> \<not> found_3_in_row codes"
  by (simp add: found_3_in_row_iff)

lemma found_3_in_row_map:
  "found_3_in_row (map status srt) \<longleftrightarrow>
     (\<exists>i. i + 2 < length srt
          \<and> is_5xx (status (srt ! i))
          \<and> is_5xx (status (srt ! (i + 1)))
          \<and> is_5xx (status (srt ! (i + 2))))"
  unfolding found_3_in_row_iff by auto

lemma found_3_in_row_examples:
  "found_3_in_row [200, 502, 502, 502, 200]"
  "\<not> found_3_in_row [502, 200, 502, 200, 502]"
  "\<not> found_3_in_row [502, 504]"
  by code_simp+

text \<open>
  \<^verbatim>\<open>sorted(results, key=...)\<close> is a stable sort: the result is ordered by the key, has the
  same elements, and keeps results of equal key in their given order.
\<close>

lemma sort_key_timestamp:
  "sorted (map timestamp_key (sort_key timestamp_key rs))
   \<and> mset (sort_key timestamp_key rs) = mset rs
   \<and> filter (\<lambda>y. timestamp_key y = k) (sort_key timestamp_key rs)
       = filter (\<lambda>y. timestamp_key y = k) rs"
  by (simp add: sort_key_stable)

lemma scenario_C_sorted:
  "map status (sort_key timestamp_key scenario_C) = [200, 502, 502, 502, 200]"
  by (simp add: scenario_C_def example_result_def timestamp_key_def)

lemma scenario_D_sorted:
  "map status (sort_key timestamp_key scenario_D) = [502, 200, 502, 200, 502]"
  by (simp add: scenario_D_def example_result_def timestamp_key_def)

text \<open>
  Scenario A: three cycles at 20 percent against a threshold of 95 give the alert with the
  three values. Scenario B: a window with one cycle at 100 percent gives none, whatever
  the last value is. Scenario D gives no burst alert.
\<close>

lemma scenario_A:
  "check_alerts example_config ''google'' (engine_stats scenario_D)
     [''google'' \<mapsto> example_window [20, 20, 20]] =
   Inr [SuccessRateAlert ''google'' 95 [20, 20, 20]]"
  by (simp add: check_alerts_def example_config_def engine_stats_results example_window_def
        scenario_D_sorted found_3_in_row_examples)

lemma scenario_B:
  "check_alerts example_config ''google'' (engine_stats scenario_D)
     [''google'' \<mapsto> example_window [20, 100, x]] = Inr []"
  by (simp add: check_alerts_def example_config_def engine_stats_results example_window_def
        scenario_D_sorted found_3_in_row_examples)

lemma scenario_C_alert:
  "check_alerts example_config ''google'' (engine_stats scenario_C)
     [''google'' \<mapsto> example_window [100, 100, 100]] = Inr [BurstAlert ''google'']"
  by (simp add: check_alerts_def example_config_def engine_stats_results example_window_def
        scenario_C_sorted found_3_in_row_examples)

text \<open>
  Claim C2: \<^verbatim>\<open>check_alerts\<close> sends the success-rate alert if and only if the engine's
  success-rate buffer holds exactly 3 entries and each is strictly below the threshold;
  one entry at or above the threshold suppresses it. The alert carries the buffer.
\<close>

theorem success_rate_alert_iff:
  assumes "status_window eng = Some s"
  shows "\<exists>alerts. check_alerts cfg eng stats status_window = Inr alerts
           \<and> ((\<exists>e thr d. SuccessRateAlert e thr d \<in> set alerts) \<longleftrightarrow>
                 length (success_rate s) = 3
                 \<and> (\<forall>x \<in> set (success_rate s). x < threshold_success_rate cfg))
           \<and> ((\<exists>x \<in> set (success_rate s). x \<ge> threshold_success_rate cfg) \<longrightarrow>
                 \<not> (\<exists>e thr d. SuccessRateAlert e thr d \<in> set alerts))
           \<and> (\<forall>e thr d. SuccessRateAlert e thr d \<in> set alerts \<longrightarrow>
                 e = eng \<and> thr = threshold_success_rate cfg \<and> d = success_rate s)"
  using assms
  by (auto simp: check_alerts_def Let_def list_all_iff not_less)

theorem success_rate_alert_iff_witness:
  "[''google'' \<mapsto> example_window [20, 20, 20]] ''google'' = Some (example_window [20, 20, 20])
   \<and> (\<exists>alerts. check_alerts example_config ''google'' (engine_stats scenario_D)
                   [''google'' \<mapsto> example_window [20, 20, 20]] = Inr alerts
               \<and> (\<exists>e thr d. SuccessRateAlert e thr d \<in> set alerts))"
proof -
  have h: "[''google'' \<mapsto> example_window [20, 20, 20]] ''google''
             = Some (example_window [20, 20, 20])"
    by simp
  have c: "length (success_rate (example_window [20, 20, 20])) = 3
           \<and> (\<forall>x \<in> set (success_rate (example_window [20, 20, 20])).
                 x < threshold_success_rate example_config)"
    by (simp add: example_window_def example_config_def)
  from success_rate_alert_iff
         [where status_window = "[''google'' \<mapsto> example_window [20, 20, 20]]"
            and eng = "''google''" and s = "example_window [20, 20, 20]"
            and cfg = example_config and stats = "engine_stats scenario_D", OF h] c
  show ?thesis using h by blast
qed

text \<open>
  Claim C3: \<^verbatim>\<open>check_alerts\<close> sends the burst alert if and only if, in the cycle's results
  sorted by ascending completion timestamp, three consecutive positions all have a status
  in 500, 502, 504. Matching results separated by a non-matching one do not count.
\<close>

theorem burst_alert_iff:
  assumes "status_window eng = Some s"
    and "srt = sort_key timestamp_key (st_results stats)"
  shows "sorted (map timestamp_key srt) \<and> mset srt = mset (st_results stats)
         \<and> (\<exists>alerts. check_alerts cfg eng stats status_window = Inr alerts
              \<and> ((\<exists>e. BurstAlert e \<in> set alerts) \<longleftrightarrow>
                    (\<exists>i. i + 2 < length srt
                         \<and> is_5xx (status (srt ! i))
                         \<and> is_5xx (status (srt ! (i + 1)))
                         \<and> is_5xx (status (srt ! (i + 2)))))
              \<and> (\<forall>e. BurstAlert e \<in> set alerts \<longrightarrow> e = eng))"
proof -
  note f = found_3_in_row_map [of srt]
  obtain alerts where al: "check_alerts cfg eng stats status_window = Inr alerts"
    using assms(1) by (simp add: check_alerts_def Let_def)
  have a: "(\<exists>e. BurstAlert e \<in> set alerts) \<longleftrightarrow> found_3_in_row (map status srt)"
    using al assms by (auto simp: check_alerts_def Let_def split: if_splits)
  have b: "\<forall>e. BurstAlert e \<in> set alerts \<longrightarrow> e = eng"
    using al assms(1) by (auto simp: check_alerts_def Let_def split: if_splits)
  have "sorted (map timestamp_key srt) \<and> mset srt = mset (st_results stats)"
    by (simp add: assms(2))
  then show ?thesis
    using al a b f by blast
qed

theorem burst_alert_iff_witness:
  "[''google'' \<mapsto> example_window [100, 100, 100]] ''google''
     = Some (example_window [100, 100, 100])
   \<and> (\<exists>alerts. check_alerts example_config ''google'' (engine_stats scenario_C)
                   [''google'' \<mapsto> example_window [100, 100, 100]] = Inr alerts
               \<and> BurstAlert ''google'' \<in> set alerts)
   \<and> (\<exists>alerts. check_alerts example_config ''google'' (engine_stats scenario_D)
                   [''google'' \<mapsto> example_window [100, 100, 100]] = Inr alerts
               \<and> BurstAlert ''google'' \<notin> set alerts)"
proof -
  have h: "[''google'' \<mapsto> example_window [100, 100, 100]] ''google''
             = Some (example_window [100, 100, 100])"
    by simp
  let ?c = "sort_key timestamp_key (st_results (engine_stats scenario_C))"
  let ?d = "sort_key timestamp_key (st_results (engine_stats scenario_D))"
  have "found_3_in_row (map status ?c)"
    by (simp add: engine_stats_results scenario_C_sorted found_3_in_row_examples)
  then have c: "\<exists>i. i + 2 < length ?c \<and> is_5xx (status (?c ! i))
                  \<and> is_5xx (status (?c ! (i + 1))) \<and> is_5xx (status (?c ! (i + 2)))"
    unfolding found_3_in_row_map .
  have "\<not> found_3_in_row (map status ?d)"
    by (simp add: engine_stats_results scenario_D_sorted found_3_in_row_examples)
  then have d: "\<not> (\<exists>i. i + 2 < length ?d \<and> is_5xx (status (?d ! i))
                  \<and> is_5xx (status (?d ! (i + 1))) \<and> is_5xx (status (?d ! (i + 2))))"
    unfolding found_3_in_row_map .
  from burst_alert_iff
         [where status_window = "[''google'' \<mapsto> example_window [100, 100, 100]]"
            and eng = "''google''" and s = "example_window [100, 100, 100]"
            and cfg = example_config and stats = "engine_stats scenario_C", OF h refl] c
  obtain a1 where a1: "check_alerts example_config ''google'' (engine_stats scenario_C)
                   [''google'' \<mapsto> example_window [100, 100, 100]] = Inr a1"
    and b1: "BurstAlert ''google'' \<in> set a1"
    by (elim conjE exE) (simp only: simp_thms, blast)
  from burst_alert_iff
         [where status_window = "[''google'' \<mapsto> example_window [100, 100, 100]]"
            and eng = "''google''" and s = "example_window [100, 100, 100]"
            and cfg = example_config and stats = "engine_stats scenario_D", OF h refl] d
  obtain a2 where a2: "check_alerts example_config ''google'' (engine_stats scenario_D)
                   [''google'' \<mapsto> example_window [100, 100, 100]] = Inr a2"
    and b2: "BurstAlert ''google'' \<notin> set a2"
    by (elim conjE exE) (simp only: simp_thms, blast)
  from h a1 b1 a2 b2 show ?thesis by blast
qed

text \<open>
  Claim C9: an engine with fewer than 3 results in the cycle gets no burst alert, whatever
  their status codes are.
\<close>

theorem burst_alert_needs_three_results:
  assumes "status_window eng = Some s"
    and "length (st_results stats) < 3"
  shows "\<exists>alerts. check_alerts cfg eng stats status_window = Inr alerts
           \<and> (\<forall>e. BurstAlert e \<notin> set alerts)"
proof -
  have "\<not> found_3_in_row (map status (sort_key timestamp_key (st_results stats)))"
    using assms(2) by (simp add: found_3_in_row_short)
  then show ?thesis
    using assms(1) by (auto simp: check_alerts_def Let_def)
qed

theorem burst_alert_needs_three_results_witness:
  "[''google'' \<mapsto> example_window [100, 100]] ''google'' = Some (example_window [100, 100])
   \<and> length (st_results (engine_stats two_errors)) < 3
   \<and> list_all (\<lambda>r. is_5xx (status r)) (st_results (engine_stats two_errors))
   \<and> (\<exists>alerts. check_alerts example_config ''google'' (engine_stats two_errors)
                   [''google'' \<mapsto> example_window [100, 100]] = Inr alerts
               \<and> (\<forall>e. BurstAlert e \<notin> set alerts))"
proof -
  have h: "[''google'' \<mapsto> example_window [100, 100]] ''google''
             = Some (example_window [100, 100])"
    by simp
  have l: "length (st_results (engine_stats two_errors)) < 3"
    by (simp add: engine_stats_results two_errors_def)
  have e: "list_all (\<lambda>r. is_5xx (status r)) (st_results (engine_stats two_errors))"
    by (simp add: engine_stats_results two_errors_def example_result_def is_5xx_def)
  from burst_alert_needs_three_results
         [where status_window = "[''google'' \<mapsto> example_window [100, 100]]"
            and eng = "''google''" and s = "example_window [100, 100]"
            and cfg = example_config and stats = "engine_stats two_errors", OF h l] h l e
  show ?thesis by blast
qed

section \<open>The rolling window\<close>

lemma deque_append_drop:
  "length d \<le> n \<Longrightarrow> deque_append n x d = drop (Suc (length d) - n) (d @ [x])"
  by (cases d) (auto simp: deque_append_def Let_def Suc_diff_le)

lemma deque_append_length: "length d \<le> n \<Longrightarrow> length (deque_append n x d) \<le> n"
  by (cases d) (auto simp: deque_append_def Let_def)

lemma deque_append_full:
  "length d = n \<Longrightarrow> 0 < n \<Longrightarrow> deque_append n x d = tl d @ [x]"
  by (cases d) (auto simp: deque_append_def Let_def)

text \<open>A deque filled by appends from empty holds the last \<open>n\<close> values appended, in order.\<close>

lemma deque_foldl:
  "foldl (\<lambda>d x. deque_append n x d) [] xs = drop (length xs - n) xs"
proof (induction xs rule: rev_induct)
  case Nil
  then show ?case by simp
next
  case (snoc x xs)
  let ?d = "drop (length xs - n) xs"
  have len: "length ?d \<le> n" by simp
  have "foldl (\<lambda>d x. deque_append n x d) [] (xs @ [x]) = deque_append n x ?d"
    by (simp add: snoc.IH)
  also have "\<dots> = drop (Suc (length ?d) - n) (?d @ [x])"
    by (rule deque_append_drop [OF len])
  also have "\<dots> = drop (length (xs @ [x]) - n) (xs @ [x])"
    by (cases "length xs < n") (auto simp: Suc_diff_le)
  finally show ?case .
qed

lemma push_rates_foldl:
  "success_rate (foldl (\<lambda>w st. push_rates st w) w0 sts) =
     foldl (\<lambda>d x. deque_append 3 x d) (success_rate w0) (map st_success_rate sts)
   \<and> timeout_rate (foldl (\<lambda>w st. push_rates st w) w0 sts) =
     foldl (\<lambda>d x. deque_append 3 x d) (timeout_rate w0) (map st_timeout_rate sts)
   \<and> exception_rate (foldl (\<lambda>w st. push_rates st w) w0 sts) =
     foldl (\<lambda>d x. deque_append 3 x d) (exception_rate w0) (map st_exception_rate sts)
   \<and> error_rate (foldl (\<lambda>w st. push_rates st w) w0 sts) =
     foldl (\<lambda>d x. deque_append 3 x d) (error_rate w0) (map st_error_rate sts)"
  by (induction sts arbitrary: w0) (simp_all add: push_rates_def)

lemma window_after_pushes:
  assumes "w = foldl (\<lambda>w st. push_rates st w) new_window sts"
  shows "success_rate w = drop (length sts - 3) (map st_success_rate sts)"
    and "timeout_rate w = drop (length sts - 3) (map st_timeout_rate sts)"
    and "exception_rate w = drop (length sts - 3) (map st_exception_rate sts)"
    and "error_rate w = drop (length sts - 3) (map st_error_rate sts)"
  using push_rates_foldl [of new_window sts]
  by (simp_all add: assms new_window_def deque_foldl)

lemma push_rates_evicts:
  "length (success_rate w) = 3 \<Longrightarrow>
     success_rate (push_rates st w) = tl (success_rate w) @ [st_success_rate st]"
  "length (timeout_rate w) = 3 \<Longrightarrow>
     timeout_rate (push_rates st w) = tl (timeout_rate w) @ [st_timeout_rate st]"
  "length (exception_rate w) = 3 \<Longrightarrow>
     exception_rate (push_rates st w) = tl (exception_rate w) @ [st_exception_rate st]"
  "length (error_rate w) = 3 \<Longrightarrow>
     error_rate (push_rates st w) = tl (error_rate w) @ [st_error_rate st]"
  by (simp_all add: push_rates_def deque_append_full)

lemma push_rates_bounded: "window_bounded w \<Longrightarrow> window_bounded (push_rates st w)"
  by (simp add: window_bounded_def push_rates_def deque_append_length)

text \<open>
  One cycle pushes the rates of every engine that has results in the batch onto that
  engine's window, once, and leaves the other windows alone.
\<close>

lemma update_and_check_window:
  "distinct (map fst analysis) \<Longrightarrow>
     update_and_check cfg analysis sw = Inr (sw', alerts) \<Longrightarrow>
     sw' e = (case map_of analysis e of
                None \<Rightarrow> sw e
              | Some st \<Rightarrow> map_option (push_rates st) (sw e))"
proof (induction analysis arbitrary: sw alerts)
  case Nil
  then show ?case by simp
next
  case (Cons p analysis)
  obtain k st where p: "p = (k, st)" by (cases p)
  from Cons.prems(1) p have d: "distinct (map fst analysis)" and k: "map_of analysis k = None"
    by (auto simp: map_of_eq_None_iff)
  from Cons.prems(2) p obtain s al' where
    s: "sw k = Some s" and
    r: "update_and_check cfg analysis (sw(k \<mapsto> push_rates st s)) = Inr (sw', al')"
    by (auto simp: Let_def split: option.splits sum.splits)
  show ?case
    using Cons.IH [OF d r] k s
    by (auto simp: p split: option.splits)
qed

lemma run_cycle_window:
  assumes "run_cycle cfg results sw = Inr (sw', alerts)"
  shows "sw' e = (if filter (\<lambda>r. engine r = e) results = [] then sw e
                  else map_option (push_rates (engine_stats (filter (\<lambda>r. engine r = e) results)))
                         (sw e))"
  using update_and_check_window [OF analyze_results_distinct, of cfg results sw sw' alerts e] assms
  by (simp add: run_cycle_def analyze_results_map_of)

lemma run_cycle_bounded:
  assumes "run_cycle cfg results sw = Inr (sw', alerts)"
    and "\<forall>e w. sw e = Some w \<longrightarrow> window_bounded w"
  shows "\<forall>e w. sw' e = Some w \<longrightarrow> window_bounded w"
  using assms(2) push_rates_bounded
  by (auto simp: run_cycle_window [OF assms(1)] split: if_splits)

lemma init_status_window_bounded:
  "init_status_window cfg e = Some w \<Longrightarrow> window_bounded w"
  by (auto simp: init_status_window_def window_bounded_def new_window_def
           dest!: map_of_SomeD)

text \<open>
  Claim C5: after any sequence of cycle pushes onto a new window, each of the four buffers
  holds at most 3 entries, namely the last 3 values pushed, oldest first; a push onto full
  buffers drops exactly the oldest entry of each.
\<close>

theorem rolling_buffers_keep_last_three:
  assumes "w = foldl (\<lambda>w st. push_rates st w) new_window sts"
  shows "(length (success_rate w) \<le> 3 \<and> length (timeout_rate w) \<le> 3
          \<and> length (exception_rate w) \<le> 3 \<and> length (error_rate w) \<le> 3)
         \<and> (success_rate w = drop (length sts - 3) (map st_success_rate sts)
            \<and> timeout_rate w = drop (length sts - 3) (map st_timeout_rate sts)
            \<and> exception_rate w = drop (length sts - 3) (map st_exception_rate sts)
            \<and> error_rate w = drop (length sts - 3) (map st_error_rate sts))
         \<and> (3 \<le> length sts \<longrightarrow>
              success_rate (push_rates st w) = tl (success_rate w) @ [st_success_rate st]
              \<and> timeout_rate (push_rates st w) = tl (timeout_rate w) @ [st_timeout_rate st]
              \<and> exception_rate (push_rates st w)
                  = tl (exception_rate w) @ [st_exception_rate st]
              \<and> error_rate (push_rates st w) = tl (error_rate w) @ [st_error_rate st])"
proof -
  note c = window_after_pushes [OF assms]
  have l: "length (success_rate w) = min (length sts) 3"
          "length (timeout_rate w) = min (length sts) 3"
          "length (exception_rate w) = min (length sts) 3"
          "length (error_rate w) = min (length sts) 3"
    by (simp_all add: c)
  have b: "length (success_rate w) \<le> 3 \<and> length (timeout_rate w) \<le> 3
          \<and> length (exception_rate w) \<le> 3 \<and> length (error_rate w) \<le> 3"
    by (simp add: l)
  have e: "3 \<le> length sts \<longrightarrow>
              success_rate (push_rates st w) = tl (success_rate w) @ [st_success_rate st]
              \<and> timeout_rate (push_rates st w) = tl (timeout_rate w) @ [st_timeout_rate st]
              \<and> exception_rate (push_rates st w)
                  = tl (exception_rate w) @ [st_exception_rate st]
              \<and> error_rate (push_rates st w) = tl (error_rate w) @ [st_error_rate st]"
    using l by (simp add: push_rates_evicts)
  from b c e show ?thesis by blast
qed

theorem rolling_buffers_keep_last_three_witness:
  "success_rate (foldl (\<lambda>w st. push_rates st w) new_window (map rates_stats [1, 2, 3, 4]))
     = [2, 3, 4]
   \<and> error_rate (foldl (\<lambda>w st. push_rates st w) new_window (map rates_stats [1, 2, 3, 4]))
     = [5, 6, 7]
   \<and> success_rate (push_rates (rates_stats 5)
        (foldl (\<lambda>w st. push_rates st w) new_window (map rates_stats [1, 2, 3, 4])))
     = [3, 4, 5]"
  using rolling_buffers_keep_last_three
          [OF refl, of "map rates_stats [1, 2, 3, 4]" "rates_stats 5"]
  by (simp add: rates_stats_def)

end
